theory Spec2Isabelle
  imports Main "HOL-Library.Word"
begin

unbundle bit_operations_syntax

section \<open>Achordion: the data of \<open>features/achordion.c\<close>\<close>

text \<open>
  The key record of the host firmware. Its declaration lives in the host's headers; the
  fields below are the ones \<open>achordion.c\<close> reads or writes: \<open>event.key\<close>,
  \<open>event.pressed\<close>, \<open>event.time\<close> (a 16-bit timestamp), \<open>tap.count\<close> and
  \<open>tap.interrupted\<close>.
\<close>

record keypos_t =
  col :: "8 word"
  row :: "8 word"

record keyevent_t =
  key :: keypos_t
  pressed :: bool
  time :: "16 word"

record tap_t =
  interrupted :: bool
  count :: "8 word"

record keyrecord_t =
  event :: keyevent_t
  tap :: tap_t

text \<open>The three assignments through the record that the file makes:
  \<open>r.event.pressed = b\<close>, \<open>r.tap.count = n\<close> and \<open>r.tap.interrupted = b\<close>.\<close>

definition set_event_pressed :: "bool \<Rightarrow> keyrecord_t \<Rightarrow> keyrecord_t" where
  "set_event_pressed b r = r\<lparr>event := (event r)\<lparr>pressed := b\<rparr>\<rparr>"

definition set_tap_count :: "8 word \<Rightarrow> keyrecord_t \<Rightarrow> keyrecord_t" where
  "set_tap_count n r = r\<lparr>tap := (tap r)\<lparr>count := n\<rparr>\<rparr>"

definition set_tap_interrupted :: "bool \<Rightarrow> keyrecord_t \<Rightarrow> keyrecord_t" where
  "set_tap_interrupted b r = r\<lparr>tap := (tap r)\<lparr>interrupted := b\<rparr>\<rparr>"

text \<open>
  Action codes. The macros \<open>ACTION_MODS\<close>, \<open>ACTION_MODS_TAP_KEY\<close> and
  \<open>QK_MOD_TAP_GET_TAP_KEYCODE\<close> are the host's; the model keeps each application
  symbolic, so an action code records which macro built it and from which arguments.
\<close>

datatype tap_keycode = QK_MOD_TAP_GET_TAP_KEYCODE "16 word"

datatype action_t =
  ACTION_MODS "8 word"
| ACTION_MODS_TAP_KEY "8 word" tap_keycode

text \<open>The anonymous enum of the file, in its order.\<close>

datatype state_t =
  STATE_UNSETTLED
| STATE_RELEASED
| STATE_TAPPING
| STATE_HOLDING
| STATE_RECURSING

text \<open>The file's static variables. \<open>KC_NO\<close> is the host's keycode for "no key".\<close>

definition KC_NO :: "16 word" where
  "KC_NO = 0"

record statics =
  tap_hold_record :: keyrecord_t
  tap_hold_keycode :: "16 word"
  hold_timer :: "16 word"
  eager_mods :: "8 word"
  pressed_another_key_before_release :: bool
  streak_timer :: "16 word"
  achordion_state :: state_t

text \<open>
  The calls the file makes into the host, in the order they are made. A call of
  \<open>process_record\<close> is logged with the record it is given and with the value the
  statics have at that moment: that is what the host pipeline finds when it calls back
  into Achordion. \<open>Neutralize_flashing_modifiers\<close> stands for
  \<open>neutralize_flashing_modifiers(get_mods())\<close>; the two auto-mouse entries stand for
  reading the host's auto-mouse key tracker and for writing the value read back.
  \<open>Default_handling\<close> is not a call of the file: it marks the host going on with its
  normal processing of a key event that the intake let pass.
\<close>

datatype effect =
  Process_record keyrecord_t statics
| Process_action keyrecord_t action_t
| Send_keyboard_report
| Wait_ms int
| Neutralize_flashing_modifiers
| Get_auto_mouse_key_tracker
| Set_auto_mouse_key_tracker
| Default_handling "16 word" keyrecord_t

record engine = statics +
  host :: "effect list"

definition emit :: "effect \<Rightarrow> engine \<Rightarrow> engine" where
  "emit x s = s\<lparr>host := host s @ [x]\<rparr>"

text \<open>The statics as the file initialises them.\<close>

definition init_record :: keyrecord_t where
  "init_record =
     \<lparr>event = \<lparr>key = \<lparr>col = 0, row = 0\<rparr>, pressed = False, time = 0\<rparr>,
      tap = \<lparr>interrupted = False, count = 0\<rparr>\<rparr>"

definition init :: engine where
  "init =
     \<lparr>tap_hold_record = init_record, tap_hold_keycode = KC_NO, hold_timer = 0,
      eager_mods = 0, pressed_another_key_before_release = False, streak_timer = 0,
      achordion_state = STATE_RELEASED, host = []\<rparr>"

text \<open>
  What the build fixes: the preprocessor symbols the file tests, and the callback
  \<open>achordion_streak_continue\<close> the keymap supplies.
\<close>

record config =
  ACHORDION_STREAK :: bool
  POINTING_DEVICE_ENABLE :: bool
  POINTING_DEVICE_AUTO_MOUSE_ENABLE :: bool
  RETRO_TAPPING :: bool
  RETRO_TAPPING_PER_KEY :: bool
  DUMMY_MOD_NEUTRALIZER_KEYCODE :: bool
  TAP_CODE_DELAY :: int
  achordion_streak_continue :: "16 word \<Rightarrow> bool"

section \<open>The functions of \<open>features/achordion.c\<close>\<close>

definition update_streak_timer :: "config \<Rightarrow> 16 word \<Rightarrow> keyrecord_t \<Rightarrow> engine \<Rightarrow> engine" where
  "update_streak_timer cfg keycode record s =
     (if achordion_streak_continue cfg keycode
      then s\<lparr>streak_timer := time (event record) OR 1\<rparr>
      else s\<lparr>streak_timer := 0\<rparr>)"

definition process_eager_mods_action :: "engine \<Rightarrow> engine" where
  "process_eager_mods_action s =
     emit (Process_action (tap_hold_record s)
             (ACTION_MODS_TAP_KEY (eager_mods s)
                (QK_MOD_TAP_GET_TAP_KEYCODE (tap_hold_keycode s)))) s"

text \<open>
  \<open>recursively_process_record\<close>: the state becomes \<open>STATE_RECURSING\<close>, the host's
  \<open>process_record\<close> runs (bracketed, in an auto-mouse build, by saving and restoring
  the auto-mouse key tracker), and the state becomes the \<open>state\<close> argument.
\<close>

definition auto_mouse :: "config \<Rightarrow> bool" where
  "auto_mouse cfg = (POINTING_DEVICE_ENABLE cfg \<and> POINTING_DEVICE_AUTO_MOUSE_ENABLE cfg)"

definition recursively_process_record ::
    "config \<Rightarrow> keyrecord_t \<Rightarrow> state_t \<Rightarrow> engine \<Rightarrow> engine" where
  "recursively_process_record cfg record state s =
     (let s = s\<lparr>achordion_state := STATE_RECURSING\<rparr>;
          s = (if auto_mouse cfg then emit Get_auto_mouse_key_tracker s else s);
          s = emit (Process_record record (statics.truncate s)) s;
          s = (if auto_mouse cfg then emit Set_auto_mouse_key_tracker s else s)
      in s\<lparr>achordion_state := state\<rparr>)"

definition settle_as_hold :: "config \<Rightarrow> engine \<Rightarrow> engine" where
  "settle_as_hold cfg s =
     (if eager_mods s \<noteq> 0
      then s\<lparr>achordion_state := STATE_HOLDING\<rparr>
      else recursively_process_record cfg (tap_hold_record s) STATE_HOLDING s)"

text \<open>
  \<open>settle_as_tap\<close>, in its parts: \<open>clear_eager_mods\<close> is the opening
  \<open>if (eager_mods) { ... }\<close> block, \<open>plumb_tap_press\<close> the statements from
  "Plumbing tap press" to the first \<open>recursively_process_record\<close>, and
  \<open>plumb_tap_release\<close> the end of the function.
\<close>

definition retro_neutralizer :: "config \<Rightarrow> bool" where
  "retro_neutralizer cfg =
     ((RETRO_TAPPING cfg \<or> RETRO_TAPPING_PER_KEY cfg) \<and> DUMMY_MOD_NEUTRALIZER_KEYCODE cfg)"

definition clear_eager_mods :: "config \<Rightarrow> engine \<Rightarrow> engine" where
  "clear_eager_mods cfg s =
     (if eager_mods s \<noteq> 0
      then
        (let s = (if retro_neutralizer cfg then emit Neutralize_flashing_modifiers s else s);
             s = s\<lparr>tap_hold_record := set_event_pressed False (tap_hold_record s)\<rparr>;
             s = emit (Process_action (tap_hold_record s) (ACTION_MODS (eager_mods s))) s
         in s\<lparr>eager_mods := 0\<rparr>)
      else s)"

definition plumb_tap_press :: "config \<Rightarrow> engine \<Rightarrow> engine" where
  "plumb_tap_press cfg s =
     (let s = s\<lparr>tap_hold_record := set_event_pressed True (tap_hold_record s)\<rparr>;
          s = s\<lparr>tap_hold_record := set_tap_count 1 (tap_hold_record s)\<rparr>;
          s = s\<lparr>tap_hold_record := set_tap_interrupted True (tap_hold_record s)\<rparr>
      in recursively_process_record cfg (tap_hold_record s) STATE_TAPPING s)"

text \<open>
  Modelled from the spec: the last statement of \<open>settle_as_tap\<close>. The text of the
  function in \<open>achordion.c\<close> ends inside the comment \<open>// Plumb tap release ev\<close>, after
  \<open>tap_hold_record.event.pressed = false\<close>; the spec has the tap-press "followed
  ... by a tap-release", replayed under the RECURSING guard, with the state set to
  TAPPING.
\<close>

definition plumb_tap_release :: "config \<Rightarrow> engine \<Rightarrow> engine" where
  "plumb_tap_release cfg s = recursively_process_record cfg (tap_hold_record s) STATE_TAPPING s"

definition settle_as_tap :: "config \<Rightarrow> engine \<Rightarrow> engine" where
  "settle_as_tap cfg s =
     (let s = clear_eager_mods cfg s;
          s = plumb_tap_press cfg s;
          s = emit Send_keyboard_report s;
          s = (if TAP_CODE_DELAY cfg > 0 then emit (Wait_ms (TAP_CODE_DELAY cfg)) s else s);
          s = s\<lparr>tap_hold_record := set_event_pressed False (tap_hold_record s)\<rparr>
      in plumb_tap_release cfg s)"

section \<open>The event intake and the periodic tick\<close>

text \<open>
  Modelled from the spec: the host callbacks of the spec's section 6 that the intake
  consults and \<open>achordion.c\<close> as available does not call: \<open>is_dual_role_key\<close>,
  \<open>hold_timeout\<close> (pending key, other key or none), \<open>chord_eligible\<close> (pending
  key, other key; a key is its keycode and its record), \<open>eager_mods_enabled\<close> and the
  modifier bitset to apply eagerly.
\<close>

record policy =
  is_dual_role_key :: "16 word \<Rightarrow> bool"
  hold_timeout :: "16 word \<Rightarrow> 16 word option \<Rightarrow> 16 word"
  chord_eligible :: "16 word \<Rightarrow> keyrecord_t \<Rightarrow> 16 word \<Rightarrow> keyrecord_t \<Rightarrow> bool"
  eager_mods_enabled :: "16 word \<Rightarrow> bool"
  eager_mod_bits :: "16 word \<Rightarrow> 8 word"

text \<open>
  Modelled from the spec: whether a key event belongs to the pending key. The spec's
  PendingKey is a logical keycode with its original event record (position); the
  comparison itself is in the part of \<open>process_achordion\<close> that is not available.
\<close>

definition is_pending_key :: "16 word \<Rightarrow> keyrecord_t \<Rightarrow> engine \<Rightarrow> bool" where
  "is_pending_key keycode record s =
     (keycode = tap_hold_keycode s \<and> key (event record) = key (event (tap_hold_record s)))"

text \<open>
  Modelled from the spec: the press of a dual-role key while the state is RELEASED
  ("record it as PendingKey, set state UNSETTLED, start the hold timer (duration from a
  host-supplied ... timeout policy), optionally apply EagerMods immediately if
  configured, optionally start/update the typing-streak timer"). The body of
  \<open>process_achordion\<close> is not available. The hold timer keeps the duration; the
  press timestamp is the one of the latched record. Eager mods are pressed through
  \<open>process_eager_mods_action\<close>.
\<close>

definition latch :: "config \<Rightarrow> policy \<Rightarrow> 16 word \<Rightarrow> keyrecord_t \<Rightarrow> engine \<Rightarrow> engine" where
  "latch cfg pol keycode record s =
     (let s = s\<lparr>tap_hold_keycode := keycode, tap_hold_record := record,
                achordion_state := STATE_UNSETTLED,
                hold_timer := hold_timeout pol keycode None,
                pressed_another_key_before_release := False\<rparr>;
          s = (if eager_mods_enabled pol keycode
               then process_eager_mods_action (s\<lparr>eager_mods := eager_mod_bits pol keycode\<rparr>)
               else s\<lparr>eager_mods := 0\<rparr>)
      in if ACHORDION_STREAK cfg then update_streak_timer cfg keycode record s else s)"

text \<open>
  Modelled from the spec: the press of another key while the state is UNSETTLED
  ("If eligible as a hold-chord, settle as hold immediately ... If not eligible ...,
  settle as tap immediately ... Either way, record that another key was pressed before
  release"). The body of \<open>process_achordion\<close> is not available.
\<close>

definition settle_on_other_press ::
    "config \<Rightarrow> policy \<Rightarrow> 16 word \<Rightarrow> keyrecord_t \<Rightarrow> engine \<Rightarrow> engine" where
  "settle_on_other_press cfg pol keycode record s =
     (let s = (if chord_eligible pol (tap_hold_keycode s) (tap_hold_record s) keycode record
               then settle_as_hold cfg s
               else settle_as_tap cfg s)
      in s\<lparr>pressed_another_key_before_release := True\<rparr>)"

text \<open>
  Modelled from the spec: the release of the pending key ("while state is UNSETTLED:
  settle as tap", "while state is HOLDING: emit the corresponding hold-release, clear
  PendingKey, transition to RELEASED", "while state is TAPPING: no-op, transition to
  RELEASED"; "PendingKey ... cleared on release of the key that was pending"). The body
  of \<open>process_achordion\<close> is not available. The hold-release that corresponds to
  eagerly applied mods is their release through \<open>process_eager_mods_action\<close>;
  otherwise it is the latched record, released, replayed through the host pipeline. The
  spec does not say what becomes of \<open>eager_mods\<close> at the release: it is left as
  it is.
\<close>

definition hold_release :: "config \<Rightarrow> engine \<Rightarrow> engine" where
  "hold_release cfg s =
     (let s = s\<lparr>tap_hold_record := set_event_pressed False (tap_hold_record s)\<rparr>
      in if eager_mods s \<noteq> 0
         then process_eager_mods_action s
         else recursively_process_record cfg (tap_hold_record s) STATE_RELEASED s)"

definition release_pending :: "config \<Rightarrow> engine \<Rightarrow> engine" where
  "release_pending cfg s =
     (let s = (if achordion_state s = STATE_UNSETTLED then settle_as_tap cfg s
               else if achordion_state s = STATE_HOLDING then hold_release cfg s
               else s)
      in s\<lparr>tap_hold_keycode := KC_NO, achordion_state := STATE_RELEASED\<rparr>)"

text \<open>
  Modelled from the spec: \<open>on_key_event\<close>, the intake that the source calls
  \<open>process_achordion\<close> and whose body is not available. The result says whether the
  host is to go on with its normal handling of the event. The cases are the spec's, in
  its order; every event they do not name passes through.
\<close>

definition pending_states :: "state_t set" where
  "pending_states = {STATE_UNSETTLED, STATE_TAPPING, STATE_HOLDING}"

definition on_key_event ::
    "config \<Rightarrow> policy \<Rightarrow> 16 word \<Rightarrow> keyrecord_t \<Rightarrow> engine \<Rightarrow> bool \<times> engine" where
  "on_key_event cfg pol keycode record s =
     (if achordion_state s = STATE_RECURSING then (True, s)
      else if pressed (event record) \<and> is_dual_role_key pol keycode
              \<and> achordion_state s = STATE_RELEASED
      then (False, latch cfg pol keycode record s)
      else if pressed (event record) \<and> achordion_state s = STATE_UNSETTLED
      then (True, settle_on_other_press cfg pol keycode record s)
      else if \<not> pressed (event record) \<and> is_pending_key keycode record s
              \<and> achordion_state s \<in> pending_states
      then (False, release_pending cfg s)
      else (True, s))"

text \<open>
  Modelled from the spec: \<open>tick(now)\<close> ("Only acts when state is UNSETTLED. If
  now - press_timestamp >= timeout ..., settle as hold"). The periodic function of
  \<open>achordion.c\<close> is not available. Timestamps are 16-bit and the difference wraps.
\<close>

definition timed_out :: "16 word \<Rightarrow> engine \<Rightarrow> bool" where
  "timed_out now s = (hold_timer s \<le> now - time (event (tap_hold_record s)))"

definition tick :: "config \<Rightarrow> 16 word \<Rightarrow> engine \<Rightarrow> engine" where
  "tick cfg now s =
     (if achordion_state s = STATE_UNSETTLED \<and> timed_out now s
      then settle_as_hold cfg s
      else s)"

text \<open>
  Modelled from the spec: the two call sites of the host's polling loop (spec, section
  2). A key event goes to the intake before the host's normal processing consumes it,
  and is processed normally only when the intake says so.
\<close>

datatype input = Key_event "16 word" keyrecord_t | Tick "16 word"

definition deliver :: "config \<Rightarrow> policy \<Rightarrow> 16 word \<Rightarrow> keyrecord_t \<Rightarrow> engine \<Rightarrow> engine" where
  "deliver cfg pol keycode record s =
     (case on_key_event cfg pol keycode record s of
        (True, s') \<Rightarrow> emit (Default_handling keycode record) s'
      | (False, s') \<Rightarrow> s')"

fun step :: "config \<Rightarrow> policy \<Rightarrow> input \<Rightarrow> engine \<Rightarrow> engine" where
  "step cfg pol (Key_event keycode record) s = deliver cfg pol keycode record s"
| "step cfg pol (Tick now) s = tick cfg now s"

definition run :: "config \<Rightarrow> policy \<Rightarrow> input list \<Rightarrow> engine \<Rightarrow> engine" where
  "run cfg pol ins s = fold (step cfg pol) ins s"

section \<open>Vocabulary of the statements\<close>

text \<open>The host calls of one \<open>recursively_process_record\<close>, given the record and the
  statics the host pipeline finds.\<close>

definition replayed :: "config \<Rightarrow> keyrecord_t \<Rightarrow> statics \<Rightarrow> effect list" where
  "replayed cfg r g =
     (if auto_mouse cfg then [Get_auto_mouse_key_tracker] else [])
     @ [Process_record r g]
     @ (if auto_mouse cfg then [Set_auto_mouse_key_tracker] else [])"

text \<open>The latched record revised as a tap press, and as the tap release after it.\<close>

definition tap_press_record :: "keyrecord_t \<Rightarrow> keyrecord_t" where
  "tap_press_record r = set_tap_interrupted True (set_tap_count 1 (set_event_pressed True r))"

definition tap_release_record :: "keyrecord_t \<Rightarrow> keyrecord_t" where
  "tap_release_record r = set_event_pressed False (tap_press_record r)"

text \<open>The statics during the replay of a tap event: the record as replayed, eager mods
  cleared, the state RECURSING.\<close>

definition guarded_tap_statics :: "keyrecord_t \<Rightarrow> engine \<Rightarrow> statics" where
  "guarded_tap_statics r s =
     (statics.truncate s)\<lparr>tap_hold_record := r, eager_mods := 0,
                           achordion_state := STATE_RECURSING\<rparr>"

definition is_process_record :: "effect \<Rightarrow> bool" where
  "is_process_record x = (case x of Process_record r g \<Rightarrow> True | _ \<Rightarrow> False)"

text \<open>The calls that release eagerly applied mods at the start of \<open>settle_as_tap\<close>.\<close>

definition eager_release :: "config \<Rightarrow> engine \<Rightarrow> effect list" where
  "eager_release cfg s =
     (if eager_mods s \<noteq> 0
      then (if retro_neutralizer cfg then [Neutralize_flashing_modifiers] else [])
           @ [Process_action (set_event_pressed False (tap_hold_record s))
                (ACTION_MODS (eager_mods s))]
      else [])"

text \<open>The calls of the tap itself: press, report, delay, release.\<close>

definition tap_calls :: "config \<Rightarrow> engine \<Rightarrow> effect list" where
  "tap_calls cfg s =
     replayed cfg (tap_press_record (tap_hold_record s))
       (guarded_tap_statics (tap_press_record (tap_hold_record s)) s)
     @ [Send_keyboard_report]
     @ (if TAP_CODE_DELAY cfg > 0 then [Wait_ms (TAP_CODE_DELAY cfg)] else [])
     @ replayed cfg (tap_release_record (tap_hold_record s))
         (guarded_tap_statics (tap_release_record (tap_hold_record s)) s)"

text \<open>A build and a keymap policy to evaluate on: keycode \<open>0x2004\<close> is the one
  dual-role key, with eager mods \<open>0x02\<close> when \<open>eager\<close> is set; every other key
  is chord-eligible exactly when it sits in another row.\<close>

definition example_config :: config where
  "example_config =
     \<lparr>ACHORDION_STREAK = True, POINTING_DEVICE_ENABLE = False,
      POINTING_DEVICE_AUTO_MOUSE_ENABLE = False, RETRO_TAPPING = False,
      RETRO_TAPPING_PER_KEY = False, DUMMY_MOD_NEUTRALIZER_KEYCODE = False,
      TAP_CODE_DELAY = 10, achordion_streak_continue = (\<lambda>k. k \<noteq> 0x2004)\<rparr>"

definition example_policy :: "bool \<Rightarrow> policy" where
  "example_policy eager =
     \<lparr>is_dual_role_key = (\<lambda>k. k = 0x2004),
      hold_timeout = (\<lambda>k other. 200),
      chord_eligible = (\<lambda>k r k' r'. row (key (event r')) \<noteq> row (key (event r))),
      eager_mods_enabled = (\<lambda>k. eager),
      eager_mod_bits = (\<lambda>k. 0x02)\<rparr>"

definition key_at :: "8 word \<Rightarrow> 8 word \<Rightarrow> bool \<Rightarrow> 16 word \<Rightarrow> keyrecord_t" where
  "key_at c r p t =
     \<lparr>event = \<lparr>key = \<lparr>col = c, row = r\<rparr>, pressed = p, time = t\<rparr>,
      tap = \<lparr>interrupted = False, count = 0\<rparr>\<rparr>"

text \<open>The state with the dual-role key at column 1, row 2 latched at time 0, without
  and with eager mods.\<close>

definition unsettled_example :: engine where
  "unsettled_example =
     init\<lparr>tap_hold_record := key_at 1 2 True 0, tap_hold_keycode := 0x2004,
          hold_timer := 200, achordion_state := STATE_UNSETTLED\<rparr>"

definition eager_example :: engine where
  "eager_example = unsettled_example\<lparr>eager_mods := 0x02\<rparr>"

text \<open>What holds of the statics whenever the host's loop is between two calls: a key is
  pending (the keycode is not \<open>KC_NO\<close>) exactly in the states UNSETTLED, TAPPING and
  HOLDING, and the state is not RECURSING.\<close>

definition pending_key_invariant :: "engine \<Rightarrow> bool" where
  "pending_key_invariant s =
     ((tap_hold_keycode s \<noteq> KC_NO) = (achordion_state s \<in> pending_states)
      \<and> achordion_state s \<noteq> STATE_RECURSING)"

text \<open>The press of the example dual-role key, its release, and the press of a key in
  another row.\<close>

definition press_A :: input where
  "press_A = Key_event 0x2004 (key_at 1 2 True 0)"

definition release_A :: "16 word \<Rightarrow> input" where
  "release_A t = Key_event 0x2004 (key_at 1 2 False t)"

definition press_B :: "16 word \<Rightarrow> input" where
  "press_B t = Key_event 0x0016 (key_at 5 1 True t)"

section \<open>Lemmas on the host calls and the statics\<close>

lemma truncate_emit: "statics.truncate (emit x s) = statics.truncate s"
  by (simp add: emit_def statics.truncate_def)

lemma rpr_host:
  "host (recursively_process_record cfg r st s) =
     host s @ replayed cfg r ((statics.truncate s)\<lparr>achordion_state := STATE_RECURSING\<rparr>)"
  by (simp add: recursively_process_record_def replayed_def emit_def statics.truncate_def Let_def)

lemma rpr_statics:
  "statics.truncate (recursively_process_record cfg r st s) =
     (statics.truncate s)\<lparr>achordion_state := st\<rparr>"
  by (simp add: recursively_process_record_def emit_def statics.truncate_def Let_def)

lemma set_event_pressed_twice [simp]:
  "set_event_pressed b (set_event_pressed c r) = set_event_pressed b r"
  by (simp add: set_event_pressed_def)

lemma clear_eager_mods_host: "host (clear_eager_mods cfg s) = host s @ eager_release cfg s"
  by (simp add: clear_eager_mods_def eager_release_def emit_def Let_def)

lemma plumb_tap_press_host:
  "host (plumb_tap_press cfg s) =
     host s @ replayed cfg (tap_press_record (tap_hold_record s))
       ((statics.truncate s)\<lparr>tap_hold_record := tap_press_record (tap_hold_record s),
                              achordion_state := STATE_RECURSING\<rparr>)"
  by (simp add: plumb_tap_press_def rpr_host Let_def tap_press_record_def statics.truncate_def)

lemma tap_press_record_pressed [simp]:
  "tap_press_record (set_event_pressed b r) = tap_press_record r"
  by (simp add: tap_press_record_def set_event_pressed_def set_tap_count_def set_tap_interrupted_def)

lemma settle_as_tap_host:
  "host (settle_as_tap cfg s) = host s @ eager_release cfg s @ tap_calls cfg s"
  apply (simp add: settle_as_tap_def plumb_tap_release_def Let_def rpr_host emit_def
      plumb_tap_press_host clear_eager_mods_host tap_calls_def)
  apply (simp add: statics.truncate_def guarded_tap_statics_def plumb_tap_press_def Let_def
      recursively_process_record_def emit_def clear_eager_mods_def tap_release_record_def tap_press_record_def)
  done

lemma emit_fields [simp]:
  "tap_hold_record (emit x s) = tap_hold_record s"
  "tap_hold_keycode (emit x s) = tap_hold_keycode s"
  "hold_timer (emit x s) = hold_timer s"
  "eager_mods (emit x s) = eager_mods s"
  "pressed_another_key_before_release (emit x s) = pressed_another_key_before_release s"
  "streak_timer (emit x s) = streak_timer s"
  "achordion_state (emit x s) = achordion_state s"
  "host (emit x s) = host s @ [x]"
  by (simp_all add: emit_def)

lemma rpr_fields [simp]:
  "tap_hold_record (recursively_process_record cfg r st s) = tap_hold_record s"
  "tap_hold_keycode (recursively_process_record cfg r st s) = tap_hold_keycode s"
  "hold_timer (recursively_process_record cfg r st s) = hold_timer s"
  "eager_mods (recursively_process_record cfg r st s) = eager_mods s"
  "pressed_another_key_before_release (recursively_process_record cfg r st s)
     = pressed_another_key_before_release s"
  "streak_timer (recursively_process_record cfg r st s) = streak_timer s"
  "achordion_state (recursively_process_record cfg r st s) = st"
  by (simp_all add: recursively_process_record_def Let_def)

lemma clear_eager_mods_fields [simp]:
  "tap_hold_keycode (clear_eager_mods cfg s) = tap_hold_keycode s"
  "hold_timer (clear_eager_mods cfg s) = hold_timer s"
  "eager_mods (clear_eager_mods cfg s) = 0"
  "pressed_another_key_before_release (clear_eager_mods cfg s)
     = pressed_another_key_before_release s"
  "streak_timer (clear_eager_mods cfg s) = streak_timer s"
  "achordion_state (clear_eager_mods cfg s) = achordion_state s"
  by (simp_all add: clear_eager_mods_def Let_def)

lemma plumb_tap_press_fields [simp]:
  "tap_hold_record (plumb_tap_press cfg s) = tap_press_record (tap_hold_record s)"
  "tap_hold_keycode (plumb_tap_press cfg s) = tap_hold_keycode s"
  "hold_timer (plumb_tap_press cfg s) = hold_timer s"
  "eager_mods (plumb_tap_press cfg s) = eager_mods s"
  "pressed_another_key_before_release (plumb_tap_press cfg s)
     = pressed_another_key_before_release s"
  "streak_timer (plumb_tap_press cfg s) = streak_timer s"
  "achordion_state (plumb_tap_press cfg s) = STATE_TAPPING"
  by (simp_all add: plumb_tap_press_def Let_def tap_press_record_def)

lemma settle_as_tap_fields [simp]:
  "tap_hold_keycode (settle_as_tap cfg s) = tap_hold_keycode s"
  "hold_timer (settle_as_tap cfg s) = hold_timer s"
  "eager_mods (settle_as_tap cfg s) = 0"
  "pressed_another_key_before_release (settle_as_tap cfg s)
     = pressed_another_key_before_release s"
  "streak_timer (settle_as_tap cfg s) = streak_timer s"
  "achordion_state (settle_as_tap cfg s) = STATE_TAPPING"
  by (simp_all add: settle_as_tap_def plumb_tap_release_def Let_def)

lemma settle_as_hold_fields [simp]:
  "tap_hold_record (settle_as_hold cfg s) = tap_hold_record s"
  "tap_hold_keycode (settle_as_hold cfg s) = tap_hold_keycode s"
  "hold_timer (settle_as_hold cfg s) = hold_timer s"
  "eager_mods (settle_as_hold cfg s) = eager_mods s"
  "pressed_another_key_before_release (settle_as_hold cfg s)
     = pressed_another_key_before_release s"
  "streak_timer (settle_as_hold cfg s) = streak_timer s"
  "achordion_state (settle_as_hold cfg s) = STATE_HOLDING"
  by (simp_all add: settle_as_hold_def)

lemma replayed_process_records:
  "filter is_process_record (replayed cfg r g) = [Process_record r g]"
  by (simp add: replayed_def is_process_record_def)

section \<open>The settlement routines and the streak timer\<close>

text \<open>
  Claim C1. When eager mods are applied at the call of \<open>settle_as_tap\<close>, its opening
  block emits their release as a plain modifier release (\<open>process_action\<close> on the
  latched record with \<open>pressed\<close> false and the action \<open>ACTION_MODS(eager_mods)\<close>,
  not the mod-tap action \<open>ACTION_MODS_TAP_KEY\<close>), preceded only by the flashing
  modifier neutraliser in a retro-tapping build, and leaves \<open>eager_mods\<close> zero. The
  calls of the tap follow this release: the two \<open>process_record\<close> calls are among
  them, each made while \<open>eager_mods\<close> is already zero, and \<open>eager_mods\<close> is zero
  when the function returns.
\<close>

theorem settle_as_tap_releases_eager_mods_first:
  "eager_mods s \<noteq> 0 \<Longrightarrow>
     host (clear_eager_mods cfg s) =
       host s @ (if retro_neutralizer cfg then [Neutralize_flashing_modifiers] else [])
         @ [Process_action (set_event_pressed False (tap_hold_record s))
              (ACTION_MODS (eager_mods s))]
     \<and> eager_mods (clear_eager_mods cfg s) = 0
     \<and> host (settle_as_tap cfg s) = host (clear_eager_mods cfg s) @ tap_calls cfg s
     \<and> filter is_process_record (tap_calls cfg s) =
         [Process_record (tap_press_record (tap_hold_record s))
            (guarded_tap_statics (tap_press_record (tap_hold_record s)) s),
          Process_record (tap_release_record (tap_hold_record s))
            (guarded_tap_statics (tap_release_record (tap_hold_record s)) s)]
     \<and> eager_mods (guarded_tap_statics r s) = 0
     \<and> eager_mods (settle_as_tap cfg s) = 0"
proof -
  assume e: "eager_mods s \<noteq> 0"
  have 1: "host (clear_eager_mods cfg s) =
       host s @ (if retro_neutralizer cfg then [Neutralize_flashing_modifiers] else [])
         @ [Process_action (set_event_pressed False (tap_hold_record s))
              (ACTION_MODS (eager_mods s))]"
    using e by (simp add: clear_eager_mods_host eager_release_def)
  have 3: "host (settle_as_tap cfg s) = host (clear_eager_mods cfg s) @ tap_calls cfg s"
    by (simp add: settle_as_tap_host clear_eager_mods_host)
  have 4: "filter is_process_record (tap_calls cfg s) =
         [Process_record (tap_press_record (tap_hold_record s))
            (guarded_tap_statics (tap_press_record (tap_hold_record s)) s),
          Process_record (tap_release_record (tap_hold_record s))
            (guarded_tap_statics (tap_release_record (tap_hold_record s)) s)]"
    by (simp add: tap_calls_def replayed_process_records is_process_record_def)
  have 5: "eager_mods (guarded_tap_statics r s) = 0"
    by (simp add: guarded_tap_statics_def)
  from 1 3 4 5 show ?thesis by simp
qed

theorem settle_as_tap_releases_eager_mods_first_witness:
  "eager_mods eager_example \<noteq> 0
   \<and> host (clear_eager_mods example_config eager_example) =
       [Process_action (key_at 1 2 False 0) (ACTION_MODS 0x02)]
   \<and> eager_mods (clear_eager_mods example_config eager_example) = 0
   \<and> host (settle_as_tap example_config eager_example) =
       Process_action (key_at 1 2 False 0) (ACTION_MODS 0x02)
         # tap_calls example_config eager_example"
proof -
  have e: "eager_mods eager_example \<noteq> 0"
    by (simp add: eager_example_def unsettled_example_def init_def)
  have r: "retro_neutralizer example_config = False"
    by (simp add: retro_neutralizer_def example_config_def)
  have h: "host eager_example = []"
    by (simp add: eager_example_def unsettled_example_def init_def)
  have k: "set_event_pressed False (tap_hold_record eager_example) = key_at 1 2 False 0"
    by (simp add: eager_example_def unsettled_example_def init_def key_at_def
        set_event_pressed_def)
  have m: "eager_mods eager_example = 0x02"
    by (simp add: eager_example_def unsettled_example_def init_def)
  show ?thesis
    using settle_as_tap_releases_eager_mods_first [OF e, of example_config]
    by (simp add: r h k m)
qed

text \<open>
  Claim C2. Every call of \<open>settle_as_tap\<close> makes, after the release of eager mods if
  any (which replays nothing), these host calls in this order: \<open>process_record\<close> on
  the latched record revised as a tap press (\<open>pressed\<close> true, \<open>tap.count\<close> 1,
  \<open>tap.interrupted\<close> true), made while the state is RECURSING; \<open>send_keyboard_report\<close>;
  \<open>wait_ms(TAP_CODE_DELAY)\<close> when the delay is positive; and \<open>process_record\<close> on
  the same record released, again while the state is RECURSING. The state is TAPPING
  after the replayed tap press and when the function returns.
\<close>

theorem settle_as_tap_replays_tap:
  "host (settle_as_tap cfg s) =
     host s @ eager_release cfg s
       @ replayed cfg (tap_press_record (tap_hold_record s))
           (guarded_tap_statics (tap_press_record (tap_hold_record s)) s)
       @ [Send_keyboard_report]
       @ (if TAP_CODE_DELAY cfg > 0 then [Wait_ms (TAP_CODE_DELAY cfg)] else [])
       @ replayed cfg (tap_release_record (tap_hold_record s))
           (guarded_tap_statics (tap_release_record (tap_hold_record s)) s)
   \<and> filter is_process_record (eager_release cfg s) = []
   \<and> achordion_state (guarded_tap_statics r s) = STATE_RECURSING
   \<and> tap_press_record (tap_hold_record s) =
       (tap_hold_record s)\<lparr>event := (event (tap_hold_record s))\<lparr>pressed := True\<rparr>,
                            tap := (tap (tap_hold_record s))\<lparr>count := 1, interrupted := True\<rparr>\<rparr>
   \<and> tap_release_record (tap_hold_record s) =
       (tap_hold_record s)\<lparr>event := (event (tap_hold_record s))\<lparr>pressed := False\<rparr>,
                            tap := (tap (tap_hold_record s))\<lparr>count := 1, interrupted := True\<rparr>\<rparr>
   \<and> achordion_state (plumb_tap_press cfg (clear_eager_mods cfg s)) = STATE_TAPPING
   \<and> achordion_state (settle_as_tap cfg s) = STATE_TAPPING"
proof -
  have 1: "filter is_process_record (eager_release cfg s) = []"
    by (simp add: eager_release_def is_process_record_def)
  have 2: "achordion_state (guarded_tap_statics r s) = STATE_RECURSING"
    by (simp add: guarded_tap_statics_def)
  have 3: "tap_press_record (tap_hold_record s) =
       (tap_hold_record s)\<lparr>event := (event (tap_hold_record s))\<lparr>pressed := True\<rparr>,
                            tap := (tap (tap_hold_record s))\<lparr>count := 1, interrupted := True\<rparr>\<rparr>"
    by (simp add: tap_press_record_def set_event_pressed_def set_tap_count_def
        set_tap_interrupted_def)
  have 4: "tap_release_record (tap_hold_record s) =
       (tap_hold_record s)\<lparr>event := (event (tap_hold_record s))\<lparr>pressed := False\<rparr>,
                            tap := (tap (tap_hold_record s))\<lparr>count := 1, interrupted := True\<rparr>\<rparr>"
    by (simp add: tap_release_record_def tap_press_record_def set_event_pressed_def
        set_tap_count_def set_tap_interrupted_def)
  have 5: "host (settle_as_tap cfg s) =
     host s @ eager_release cfg s
       @ replayed cfg (tap_press_record (tap_hold_record s))
           (guarded_tap_statics (tap_press_record (tap_hold_record s)) s)
       @ [Send_keyboard_report]
       @ (if TAP_CODE_DELAY cfg > 0 then [Wait_ms (TAP_CODE_DELAY cfg)] else [])
       @ replayed cfg (tap_release_record (tap_hold_record s))
           (guarded_tap_statics (tap_release_record (tap_hold_record s)) s)"
    by (simp add: settle_as_tap_host tap_calls_def)
  from 1 2 3 4 5 show ?thesis by simp
qed

theorem settle_as_tap_replays_tap_witness:
  "host (settle_as_tap example_config unsettled_example) =
     [Process_record (tap_press_record (key_at 1 2 True 0))
        (guarded_tap_statics (tap_press_record (key_at 1 2 True 0)) unsettled_example),
      Send_keyboard_report,
      Wait_ms 10,
      Process_record (tap_release_record (key_at 1 2 True 0))
        (guarded_tap_statics (tap_release_record (key_at 1 2 True 0)) unsettled_example)]
   \<and> tap_press_record (key_at 1 2 True 0) =
       \<lparr>event = \<lparr>key = \<lparr>col = 1, row = 2\<rparr>, pressed = True, time = 0\<rparr>,
        tap = \<lparr>interrupted = True, count = 1\<rparr>\<rparr>
   \<and> tap_release_record (key_at 1 2 True 0) =
       \<lparr>event = \<lparr>key = \<lparr>col = 1, row = 2\<rparr>, pressed = False, time = 0\<rparr>,
        tap = \<lparr>interrupted = True, count = 1\<rparr>\<rparr>
   \<and> achordion_state (settle_as_tap example_config unsettled_example) = STATE_TAPPING"
proof -
  have u: "eager_mods unsettled_example = 0" "host unsettled_example = []"
    "tap_hold_record unsettled_example = key_at 1 2 True 0"
    by (simp_all add: unsettled_example_def init_def)
  have a: "auto_mouse example_config = False" "TAP_CODE_DELAY example_config = 10"
    by (simp_all add: auto_mouse_def example_config_def)
  have k: "key_at 1 2 True 0 =
       \<lparr>event = \<lparr>key = \<lparr>col = 1, row = 2\<rparr>, pressed = True, time = 0\<rparr>,
        tap = \<lparr>interrupted = False, count = 0\<rparr>\<rparr>"
    by (simp add: key_at_def)
  have e: "eager_release example_config unsettled_example = []"
    by (simp add: eager_release_def u)
  show ?thesis
    using settle_as_tap_replays_tap [of example_config unsettled_example]
    by (simp add: u a e replayed_def) (simp add: k)
qed

text \<open>
  Claim C3. \<open>settle_as_hold\<close>: when \<open>eager_mods\<close> is nonzero the only change is
  the state, which becomes HOLDING, and nothing is emitted; otherwise the latched record
  (the hold press of the pending key) is replayed through \<open>process_record\<close> while the
  state is RECURSING, nothing else of the statics changes, and the state ends as HOLDING.
\<close>

theorem settle_as_hold_cases:
  "(if eager_mods s \<noteq> 0
    then settle_as_hold cfg s = s\<lparr>achordion_state := STATE_HOLDING\<rparr>
    else host (settle_as_hold cfg s) =
           host s @ replayed cfg (tap_hold_record s)
                      ((statics.truncate s)\<lparr>achordion_state := STATE_RECURSING\<rparr>)
         \<and> statics.truncate (settle_as_hold cfg s) =
           (statics.truncate s)\<lparr>achordion_state := STATE_HOLDING\<rparr>)
   \<and> achordion_state (settle_as_hold cfg s) = STATE_HOLDING"
  by (simp add: settle_as_hold_def rpr_host rpr_statics)

theorem settle_as_hold_cases_witness:
  "host (settle_as_hold example_config eager_example) = []
   \<and> settle_as_hold example_config eager_example =
       eager_example\<lparr>achordion_state := STATE_HOLDING\<rparr>
   \<and> host (settle_as_hold example_config unsettled_example) =
       [Process_record (key_at 1 2 True 0)
          ((statics.truncate unsettled_example)\<lparr>achordion_state := STATE_RECURSING\<rparr>)]
   \<and> achordion_state (settle_as_hold example_config unsettled_example) = STATE_HOLDING"
proof -
  have e: "eager_mods eager_example \<noteq> 0" "host eager_example = []"
    by (simp_all add: eager_example_def unsettled_example_def init_def)
  have u: "eager_mods unsettled_example = 0" "host unsettled_example = []"
    "tap_hold_record unsettled_example = key_at 1 2 True 0"
    by (simp_all add: unsettled_example_def init_def)
  have a: "auto_mouse example_config = False"
    by (simp add: auto_mouse_def example_config_def)
  show ?thesis
    using settle_as_hold_cases [of eager_example example_config]
      settle_as_hold_cases [of unsettled_example example_config]
    by (simp add: e u a replayed_def)
qed

text \<open>
  Claim C10. After \<open>update_streak_timer\<close> the streak timer is nonzero exactly when
  \<open>achordion_streak_continue\<close> returned true for the keycode; the value stored is
  then the event's timestamp OR 1, which for the timestamp 0 is 1, and 0 otherwise.
\<close>

theorem update_streak_timer_nonzero_iff:
  "(streak_timer (update_streak_timer cfg keycode record s) \<noteq> 0)
     = achordion_streak_continue cfg keycode
   \<and> streak_timer (update_streak_timer cfg keycode record s)
     = (if achordion_streak_continue cfg keycode then time (event record) OR 1 else 0)
   \<and> streak_timer (update_streak_timer cfg keycode (key_at c r p 0) s)
     = (if achordion_streak_continue cfg keycode then 1 else 0)"
  by (simp add: update_streak_timer_def key_at_def or_eq_0_iff)

theorem update_streak_timer_nonzero_iff_witness:
  "streak_timer (update_streak_timer example_config 0x0004 (key_at 3 1 True 0) init) = 1
   \<and> streak_timer (update_streak_timer example_config 0x2004 (key_at 1 2 True 7)
        (init\<lparr>streak_timer := 9\<rparr>)) = 0"
proof -
  have c: "achordion_streak_continue example_config 0x0004"
    "\<not> achordion_streak_continue example_config 0x2004"
    by (simp_all add: example_config_def)
  show ?thesis
    using update_streak_timer_nonzero_iff [of example_config "0x0004" "key_at 3 1 True 0" init 3 1 True]
      update_streak_timer_nonzero_iff [of example_config "0x2004" "key_at 1 2 True 7" "init\<lparr>streak_timer := 9\<rparr>" 3 1 True]
    by (simp add: c key_at_def)
qed

section \<open>The RECURSING guard\<close>

lemma on_key_event_recursing:
  "achordion_state s = STATE_RECURSING \<Longrightarrow> on_key_event cfg pol keycode r s = (True, s)"
  by (simp add: on_key_event_def)

text \<open>
  Claim C4, as amended. \<open>recursively_process_record\<close> makes exactly one
  \<open>process_record\<close> call, made while the state is RECURSING, and afterwards the state
  is its \<open>state\<close> argument, with the other statics as before: the state the caller
  asks for, not the state before the call. A settlement as hold goes through it once, or
  not at all when eager mods are applied; a settlement as tap goes through it twice, for
  the press and for the release. An event that reaches the intake while the state is
  RECURSING is passed on with the engine unchanged.
\<close>

theorem recursing_brackets_one_replay:
  "host (recursively_process_record cfg record state s) =
     host s @ replayed cfg record ((statics.truncate s)\<lparr>achordion_state := STATE_RECURSING\<rparr>)
   \<and> filter is_process_record (replayed cfg record g) = [Process_record record g]
   \<and> statics.truncate (recursively_process_record cfg record state s) =
       (statics.truncate s)\<lparr>achordion_state := state\<rparr>
   \<and> filter is_process_record (drop (length (host s)) (host (settle_as_hold cfg s))) =
       (if eager_mods s \<noteq> 0 then []
        else [Process_record (tap_hold_record s)
                ((statics.truncate s)\<lparr>achordion_state := STATE_RECURSING\<rparr>)])
   \<and> filter is_process_record (drop (length (host s)) (host (settle_as_tap cfg s))) =
       [Process_record (tap_press_record (tap_hold_record s))
          (guarded_tap_statics (tap_press_record (tap_hold_record s)) s),
        Process_record (tap_release_record (tap_hold_record s))
          (guarded_tap_statics (tap_release_record (tap_hold_record s)) s)]
   \<and> achordion_state (guarded_tap_statics r s) = STATE_RECURSING
   \<and> on_key_event cfg pol keycode r (s\<lparr>achordion_state := STATE_RECURSING\<rparr>) =
       (True, s\<lparr>achordion_state := STATE_RECURSING\<rparr>)"
proof -
  have 1: "filter is_process_record (drop (length (host s)) (host (settle_as_hold cfg s))) =
       (if eager_mods s \<noteq> 0 then []
        else [Process_record (tap_hold_record s)
                ((statics.truncate s)\<lparr>achordion_state := STATE_RECURSING\<rparr>)])"
    by (simp add: settle_as_hold_def rpr_host replayed_process_records)
  have 2: "filter is_process_record (drop (length (host s)) (host (settle_as_tap cfg s))) =
       [Process_record (tap_press_record (tap_hold_record s))
          (guarded_tap_statics (tap_press_record (tap_hold_record s)) s),
        Process_record (tap_release_record (tap_hold_record s))
          (guarded_tap_statics (tap_release_record (tap_hold_record s)) s)]"
    by (simp add: settle_as_tap_host tap_calls_def replayed_process_records
        eager_release_def is_process_record_def)
  have 3: "achordion_state (guarded_tap_statics r s) = STATE_RECURSING"
    by (simp add: guarded_tap_statics_def)
  have 4: "on_key_event cfg pol keycode r (s\<lparr>achordion_state := STATE_RECURSING\<rparr>) =
       (True, s\<lparr>achordion_state := STATE_RECURSING\<rparr>)"
    by (simp add: on_key_event_recursing)
  from 1 2 3 4 show ?thesis
    by (simp add: rpr_host rpr_statics replayed_process_records)
qed

theorem recursing_brackets_one_replay_witness:
  "host (recursively_process_record example_config (key_at 1 2 True 0) STATE_HOLDING
           unsettled_example) =
     [Process_record (key_at 1 2 True 0)
        ((statics.truncate unsettled_example)\<lparr>achordion_state := STATE_RECURSING\<rparr>)]
   \<and> achordion_state (recursively_process_record example_config (key_at 1 2 True 0)
        STATE_HOLDING unsettled_example) = STATE_HOLDING"
proof -
  have u: "host unsettled_example = []"
    by (simp add: unsettled_example_def init_def)
  have a: "auto_mouse example_config = False"
    by (simp add: auto_mouse_def example_config_def)
  show ?thesis
    using recursing_brackets_one_replay
      [of example_config "key_at 1 2 True 0" STATE_HOLDING unsettled_example]
    by (simp add: u a replayed_def)
qed

text \<open>
  Claim C4 as stated fails: replaying the hold press from the state UNSETTLED leaves the
  state HOLDING, not UNSETTLED; and a settlement as hold with eager mods applied makes no
  \<open>process_record\<close> call at all.
\<close>

theorem recursing_restores_prior_state_counterexample:
  "achordion_state unsettled_example = STATE_UNSETTLED
   \<and> achordion_state (recursively_process_record example_config
        (tap_hold_record unsettled_example) STATE_HOLDING unsettled_example) = STATE_HOLDING
   \<and> achordion_state (recursively_process_record example_config
        (tap_hold_record unsettled_example) STATE_HOLDING unsettled_example)
       \<noteq> achordion_state unsettled_example
   \<and> eager_mods eager_example \<noteq> 0
   \<and> filter is_process_record (host (settle_as_hold example_config eager_example)) = []"
  by (simp add: unsettled_example_def eager_example_def init_def settle_as_hold_def)

section \<open>The intake and the tick\<close>

lemma update_streak_timer_fields [simp]:
  "tap_hold_record (update_streak_timer cfg k r s) = tap_hold_record s"
  "tap_hold_keycode (update_streak_timer cfg k r s) = tap_hold_keycode s"
  "hold_timer (update_streak_timer cfg k r s) = hold_timer s"
  "eager_mods (update_streak_timer cfg k r s) = eager_mods s"
  "achordion_state (update_streak_timer cfg k r s) = achordion_state s"
  "host (update_streak_timer cfg k r s) = host s"
  by (simp_all add: update_streak_timer_def)

lemma latch_fields [simp]:
  "tap_hold_record (latch cfg pol k r s) = r"
  "tap_hold_keycode (latch cfg pol k r s) = k"
  "hold_timer (latch cfg pol k r s) = hold_timeout pol k None"
  "eager_mods (latch cfg pol k r s) = (if eager_mods_enabled pol k then eager_mod_bits pol k else 0)"
  "achordion_state (latch cfg pol k r s) = STATE_UNSETTLED"
  "host (latch cfg pol k r s) =
     host s @ (if eager_mods_enabled pol k
               then [Process_action r (ACTION_MODS_TAP_KEY (eager_mod_bits pol k)
                                         (QK_MOD_TAP_GET_TAP_KEYCODE k))]
               else [])"
  by (simp_all add: latch_def Let_def process_eager_mods_action_def)

lemma settle_on_other_press_fields [simp]:
  "tap_hold_keycode (settle_on_other_press cfg pol k r s) = tap_hold_keycode s"
  "achordion_state (settle_on_other_press cfg pol k r s) =
     (if chord_eligible pol (tap_hold_keycode s) (tap_hold_record s) k r
      then STATE_HOLDING else STATE_TAPPING)"
  "host (settle_on_other_press cfg pol k r s) =
     (if chord_eligible pol (tap_hold_keycode s) (tap_hold_record s) k r
      then host (settle_as_hold cfg s) else host (settle_as_tap cfg s))"
  by (simp_all add: settle_on_other_press_def Let_def)

lemma release_pending_fields [simp]:
  "tap_hold_keycode (release_pending cfg s) = KC_NO"
  "achordion_state (release_pending cfg s) = STATE_RELEASED"
  by (simp_all add: release_pending_def Let_def)

lemma release_pending_unsettled_host:
  "achordion_state s = STATE_UNSETTLED \<Longrightarrow>
     host (release_pending cfg s) = host (settle_as_tap cfg s)"
  by (simp add: release_pending_def Let_def)

lemma tick_settled: "achordion_state s \<noteq> STATE_UNSETTLED \<Longrightarrow> tick cfg now s = s"
  by (simp add: tick_def)

lemma tick_not_timed_out: "\<not> timed_out now s \<Longrightarrow> tick cfg now s = s"
  by (simp add: tick_def)

lemma tick_state:
  "achordion_state (tick cfg now s) =
     (if achordion_state s = STATE_UNSETTLED \<and> timed_out now s then STATE_HOLDING
      else achordion_state s)"
  by (simp add: tick_def)

lemma fold_tick_settled:
  "achordion_state s \<noteq> STATE_UNSETTLED \<Longrightarrow> fold (tick cfg) nows s = s"
  by (induction nows) (simp_all add: tick_settled)

lemma fold_step_ticks:
  "\<forall>now\<in>set nows. \<not> timed_out now s \<Longrightarrow> fold (step cfg pol) (map Tick nows) s = s"
  by (induction nows) (simp_all add: tick_not_timed_out)

lemma deliver_latch:
  "achordion_state s = STATE_RELEASED \<Longrightarrow> is_dual_role_key pol k \<Longrightarrow> pressed (event r) \<Longrightarrow>
     deliver cfg pol k r s = latch cfg pol k r s"
  by (simp add: deliver_def on_key_event_def)

lemma deliver_release:
  "achordion_state s \<in> pending_states \<Longrightarrow> \<not> pressed (event r) \<Longrightarrow> is_pending_key k r s \<Longrightarrow>
     deliver cfg pol k r s = release_pending cfg s"
  by (auto simp: deliver_def on_key_event_def pending_states_def)

lemma on_key_event_invariant:
  assumes "\<not> is_dual_role_key pol KC_NO" and "pending_key_invariant s"
  shows "pending_key_invariant (snd (on_key_event cfg pol k r s))"
  using assms
  by (auto simp: on_key_event_def pending_key_invariant_def pending_states_def)

lemma deliver_keycode_state:
  "tap_hold_keycode (deliver cfg pol k r s) = tap_hold_keycode (snd (on_key_event cfg pol k r s))"
  "achordion_state (deliver cfg pol k r s) = achordion_state (snd (on_key_event cfg pol k r s))"
  by (simp_all add: deliver_def split: prod.split bool.split)

lemma step_invariant:
  assumes "\<not> is_dual_role_key pol KC_NO" and "pending_key_invariant s"
  shows "pending_key_invariant (step cfg pol i s)"
proof (cases i)
  case (Key_event k r)
  have "pending_key_invariant (snd (on_key_event cfg pol k r s))"
    using assms by (rule on_key_event_invariant)
  then show ?thesis
    by (simp add: Key_event pending_key_invariant_def deliver_keycode_state)
next
  case (Tick now)
  show ?thesis
    using assms(2)
    by (auto simp: Tick tick_def pending_key_invariant_def pending_states_def)
qed

lemma run_invariant:
  assumes "\<not> is_dual_role_key pol KC_NO" and "pending_key_invariant s"
  shows "pending_key_invariant (run cfg pol ins s)"
  using assms(2) unfolding run_def
  by (induction ins arbitrary: s) (simp_all add: step_invariant [OF assms(1)])

text \<open>
  Claim C7. The tick acts only in the state UNSETTLED: in the states TAPPING, HOLDING
  and RELEASED a tick, and any number of ticks, leaves the engine as it is (the state
  unchanged, no host call made). Once a tick leaves the engine settled, further ticks
  change nothing; in particular, after the tick that settles an unsettled key as hold at
  its timeout the state is HOLDING and any further ticks leave the result of that one
  settlement.
\<close>

theorem tick_only_acts_when_unsettled:
  "(achordion_state s \<in> {STATE_TAPPING, STATE_HOLDING, STATE_RELEASED} \<longrightarrow>
      tick cfg now s = s \<and> fold (tick cfg) nows s = s)
   \<and> (achordion_state (tick cfg now s) \<noteq> STATE_UNSETTLED \<longrightarrow>
      fold (tick cfg) nows (tick cfg now s) = tick cfg now s)
   \<and> (achordion_state s = STATE_UNSETTLED \<and> timed_out now s \<longrightarrow>
      achordion_state (tick cfg now s) = STATE_HOLDING
      \<and> fold (tick cfg) nows (tick cfg now s) = settle_as_hold cfg s)"
proof -
  have 1: "achordion_state s \<in> {STATE_TAPPING, STATE_HOLDING, STATE_RELEASED} \<longrightarrow>
      tick cfg now s = s \<and> fold (tick cfg) nows s = s"
    by (auto simp: tick_settled fold_tick_settled)
  have 2: "achordion_state (tick cfg now s) \<noteq> STATE_UNSETTLED \<longrightarrow>
      fold (tick cfg) nows (tick cfg now s) = tick cfg now s"
    by (simp add: fold_tick_settled)
  have 3: "achordion_state s = STATE_UNSETTLED \<and> timed_out now s \<longrightarrow>
      achordion_state (tick cfg now s) = STATE_HOLDING
      \<and> fold (tick cfg) nows (tick cfg now s) = settle_as_hold cfg s"
    by (simp add: tick_def fold_tick_settled)
  from 1 2 3 show ?thesis by blast
qed

theorem tick_only_acts_when_unsettled_witness:
  "tick example_config 250 init = init
   \<and> fold (tick example_config) [300, 400] init = init
   \<and> achordion_state (tick example_config 250 unsettled_example) = STATE_HOLDING
   \<and> fold (tick example_config) [300, 400] (tick example_config 250 unsettled_example) =
       settle_as_hold example_config unsettled_example"
proof -
  have i: "achordion_state init = STATE_RELEASED"
    by (simp add: init_def)
  have u: "achordion_state unsettled_example = STATE_UNSETTLED"
    "timed_out 250 unsettled_example"
    by (simp_all add: unsettled_example_def init_def timed_out_def key_at_def)
  show ?thesis
    using tick_only_acts_when_unsettled [of init example_config 250 "[300, 400]"]
      tick_only_acts_when_unsettled [of unsettled_example example_config 250 "[300, 400]"]
    by (simp add: i u)
qed

text \<open>
  Claim C9. When a key is pressed while the state is UNSETTLED and the policy finds it
  chord-eligible with the pending key, the intake settles the pending key as hold and
  lets the event pass: the hold press of the pending key (none when eager mods already
  apply the hold) is replayed before the host's normal handling of the second key's
  press, the state is HOLDING by then, and the pending key is still the same key.
\<close>

theorem chord_settles_hold_before_delivery:
  assumes "achordion_state s = STATE_UNSETTLED"
    and "pressed (event r)"
    and "chord_eligible pol (tap_hold_keycode s) (tap_hold_record s) keycode r"
  shows "on_key_event cfg pol keycode r s =
           (True, (settle_as_hold cfg s)\<lparr>pressed_another_key_before_release := True\<rparr>)
         \<and> host (deliver cfg pol keycode r s) =
             host s
             @ (if eager_mods s \<noteq> 0 then []
                else replayed cfg (tap_hold_record s)
                       ((statics.truncate s)\<lparr>achordion_state := STATE_RECURSING\<rparr>))
             @ [Default_handling keycode r]
         \<and> achordion_state (deliver cfg pol keycode r s) = STATE_HOLDING
         \<and> tap_hold_keycode (deliver cfg pol keycode r s) = tap_hold_keycode s"
proof -
  have 1: "on_key_event cfg pol keycode r s =
           (True, (settle_as_hold cfg s)\<lparr>pressed_another_key_before_release := True\<rparr>)"
    using assms by (simp add: on_key_event_def settle_on_other_press_def)
  have 2: "host (settle_as_hold cfg s) =
             host s
             @ (if eager_mods s \<noteq> 0 then []
                else replayed cfg (tap_hold_record s)
                       ((statics.truncate s)\<lparr>achordion_state := STATE_RECURSING\<rparr>))"
    by (simp add: settle_as_hold_def rpr_host)
  show ?thesis
    by (simp add: 1 deliver_def 2)
qed

theorem chord_settles_hold_before_delivery_witness:
  "host (deliver example_config (example_policy False) 0x0016 (key_at 5 1 True 50)
           unsettled_example) =
     [Process_record (key_at 1 2 True 0)
        ((statics.truncate unsettled_example)\<lparr>achordion_state := STATE_RECURSING\<rparr>),
      Default_handling 0x0016 (key_at 5 1 True 50)]
   \<and> achordion_state (deliver example_config (example_policy False) 0x0016
        (key_at 5 1 True 50) unsettled_example) = STATE_HOLDING"
proof -
  have u: "achordion_state unsettled_example = STATE_UNSETTLED"
    "eager_mods unsettled_example = 0" "host unsettled_example = []"
    "tap_hold_record unsettled_example = key_at 1 2 True 0"
    by (simp_all add: unsettled_example_def init_def)
  have p: "pressed (event (key_at 5 1 True 50))"
    by (simp add: key_at_def)
  have c: "chord_eligible (example_policy False) (tap_hold_keycode unsettled_example)
             (tap_hold_record unsettled_example) 0x0016 (key_at 5 1 True 50)"
    by (simp add: example_policy_def u key_at_def)
  have a: "auto_mouse example_config = False"
    by (simp add: auto_mouse_def example_config_def)
  show ?thesis
    using chord_settles_hold_before_delivery [OF u(1) p c, of example_config]
    by (simp add: u a replayed_def)
qed



text \<open>
  Claim C5. For a keymap that does not call \<open>KC_NO\<close> a dual-role key: at start, and
  after every key event and every tick of any run of the host's loop, a key is pending
  (\<open>tap_hold_keycode\<close> is not \<open>KC_NO\<close>) exactly when the state is UNSETTLED,
  TAPPING or HOLDING, and the state is never RECURSING there. There is one pending key
  (one \<open>tap_hold_keycode\<close>, one \<open>tap_hold_record\<close>), and a press that arrives
  while a key is pending leaves that key pending; the release of the pending key clears
  it and makes the state RELEASED.
\<close>

theorem pending_key_iff_state:
  assumes "\<not> is_dual_role_key pol KC_NO"
  shows "pending_key_invariant init
         \<and> (pending_key_invariant s \<longrightarrow> pending_key_invariant (run cfg pol ins s))
         \<and> (pending_key_invariant s \<and> tap_hold_keycode s \<noteq> KC_NO \<and> pressed (event r) \<longrightarrow>
              tap_hold_keycode (deliver cfg pol keycode r s) = tap_hold_keycode s)
         \<and> (pending_key_invariant s \<and> tap_hold_keycode s \<noteq> KC_NO \<and> \<not> pressed (event r)
              \<and> is_pending_key keycode r s \<longrightarrow>
              tap_hold_keycode (deliver cfg pol keycode r s) = KC_NO
              \<and> achordion_state (deliver cfg pol keycode r s) = STATE_RELEASED)"
proof -
  have 1: "pending_key_invariant init"
    by (simp add: pending_key_invariant_def init_def pending_states_def)
  have 2: "pending_key_invariant s \<longrightarrow> pending_key_invariant (run cfg pol ins s)"
    using assms by (simp add: run_invariant)
  have 3: "pending_key_invariant s \<and> tap_hold_keycode s \<noteq> KC_NO \<and> pressed (event r) \<longrightarrow>
              tap_hold_keycode (deliver cfg pol keycode r s) = tap_hold_keycode s"
    by (auto simp: deliver_keycode_state on_key_event_def pending_key_invariant_def
        pending_states_def)
  have 4: "pending_key_invariant s \<and> tap_hold_keycode s \<noteq> KC_NO \<and> \<not> pressed (event r)
              \<and> is_pending_key keycode r s \<longrightarrow>
              tap_hold_keycode (deliver cfg pol keycode r s) = KC_NO
              \<and> achordion_state (deliver cfg pol keycode r s) = STATE_RELEASED"
    by (auto simp: deliver_keycode_state on_key_event_def pending_key_invariant_def
        pending_states_def)
  from 1 2 3 4 show ?thesis by blast
qed

theorem pending_key_iff_state_witness:
  "\<not> is_dual_role_key (example_policy False) KC_NO
   \<and> pending_key_invariant init
   \<and> pending_key_invariant
       (run example_config (example_policy False) [press_A, press_B 50, release_A 120] init)"
proof -
  have k: "\<not> is_dual_role_key (example_policy False) KC_NO"
    by (simp add: example_policy_def KC_NO_def)
  show ?thesis
    using k pending_key_iff_state [OF k, of init example_config
        "[press_A, press_B 50, release_A 120]"]
    by simp
qed

end
